theory Spec2Isabelle
  imports Main "HOL-Library.Word"
begin

unbundle bit_operations_syntax

section \<open>The machine: sizes, addresses, bytes\<close>

text \<open>
  The allocator of \<^verbatim>\<open>arena.c\<close> computes with \<^verbatim>\<open>size_t\<close> and \<^verbatim>\<open>uintptr_t\<close>. Both are
  unsigned 64-bit integers on the LP64 targets the program is built for, so both are
  \<open>64 word\<close>: addition and subtraction wrap modulo \<open>2 ^ 64\<close>, as C's unsigned arithmetic
  does. A pointer is the address it holds; \<^verbatim>\<open>NULL\<close> as a return value is \<open>None\<close>.
\<close>

type_synonym size_t = "64 word"
type_synonym uintptr_t = "64 word"
type_synonym byte = "8 word"

text \<open>An \<^verbatim>\<open>Arena *\<close>: the identity of one arena object in the store.\<close>

type_synonym arena_ptr = nat

text \<open>\<^verbatim>\<open>arena.h\<close>: the two structs, field by field.\<close>

record Arena =
  buffer :: uintptr_t
  buffer_length :: size_t
  previous_offset :: size_t
  current_offset :: size_t

record Arena_Checkpoint =
  arena :: arena_ptr
  previous_offset :: size_t
  current_offset :: size_t

text \<open>
  The mutable state the functions work on: the arena objects, by pointer, and the bytes of
  memory, by address. The arena objects are kept apart from the byte memory: no function
  of \<^verbatim>\<open>arena.c\<close> reads an arena through a byte pointer.
\<close>

record machine =
  arenas :: "arena_ptr \<Rightarrow> Arena"
  bytes :: "uintptr_t \<Rightarrow> byte"

text \<open>
  The two ways a call ends without returning.
  \<^item> \<^verbatim>\<open>debug.h\<close>: a failed \<^verbatim>\<open>assert\<close> is fatal (\<^verbatim>\<open>__builtin_trap\<close> with \<^verbatim>\<open>DEBUG\<close>, the
    \<^verbatim>\<open>abort\<close> of \<^verbatim>\<open>assert.h\<close> without). The model is of a build whose assertions are
    compiled in.
  \<^item> A write that runs past the buffer leaves the object the arena was bound to: undefined
    in C, a fault on the machine. \<open>Memory_Fault\<close> carries the arena objects as they are
    at that moment, with everything stored that the code stored before the write.
\<close>

datatype error = Assertion_Failed | Memory_Fault "arena_ptr \<Rightarrow> Arena"

section \<open>arena.c\<close>

text \<open>\<^verbatim>\<open>#define DEFAULT_ALIGNMENT (sizeof(void *) * 2)\<close>, with 8-byte pointers.\<close>

definition sizeof_void_ptr :: size_t where
  "sizeof_void_ptr = 8"

definition DEFAULT_ALIGNMENT :: size_t where
  "DEFAULT_ALIGNMENT = sizeof_void_ptr * 2"

definition is_power_of_two :: "uintptr_t \<Rightarrow> bool" where
  "is_power_of_two x \<longleftrightarrow> (x AND (x - 1)) = 0"

definition align :: "uintptr_t \<Rightarrow> size_t \<Rightarrow> error + uintptr_t" where
  "align pointer alignment =
     (if \<not> is_power_of_two alignment then Inl Assertion_Failed
      else
        let p = pointer;
            a = alignment;
            m = p AND (a - 1)
        in Inr (if m \<noteq> 0 then p + (a - m) else p))"

text \<open>
  \<^verbatim>\<open>memset(p, c, n)\<close> of the C library. Its writes: the \<open>n\<close> bytes at \<open>p\<close>, \<open>p + 1\<close>,
  ..., \<open>p + (n - 1)\<close> become \<open>c\<close>, every other byte stays.
\<close>

fun write_bytes :: "(uintptr_t \<Rightarrow> byte) \<Rightarrow> uintptr_t \<Rightarrow> byte \<Rightarrow> nat \<Rightarrow> uintptr_t \<Rightarrow> byte" where
  "write_bytes mem p c 0 = mem"
| "write_bytes mem p c (Suc n) = (write_bytes mem p c n)(p + of_nat n := c)"

text \<open>
  The call completes only when the \<open>n\<close> bytes lie inside the object written to, here the
  buffer of the arena \<open>obj\<close>: \<open>buffer_length obj\<close> bytes from \<open>buffer obj\<close>. When they run
  past it the call faults and does not return: \<open>None\<close>.
\<close>

definition memset ::
  "Arena \<Rightarrow> (uintptr_t \<Rightarrow> byte) \<Rightarrow> uintptr_t \<Rightarrow> byte \<Rightarrow> size_t \<Rightarrow> (uintptr_t \<Rightarrow> byte) option" where
  "memset obj mem p c n =
     (if unat (p - buffer obj) + unat n \<le> unat (buffer_length obj)
      then Some (write_bytes mem p c (unat n))
      else None)"

text \<open>
  \<^verbatim>\<open>arena_alloc_align\<close>: the result is the returned pointer (\<open>None\<close> for \<^verbatim>\<open>NULL\<close>) and
  the machine after the call, or the trap of the assertion in \<open>align\<close>, or the fault of
  the \<^verbatim>\<open>memset\<close>, which comes after the two offsets are stored.
\<close>

definition arena_alloc_align ::
  "machine \<Rightarrow> arena_ptr \<Rightarrow> size_t \<Rightarrow> size_t \<Rightarrow> error + (uintptr_t option \<times> machine)" where
  "arena_alloc_align s a sz alignment =
     (let ar = arenas s a;
          current_pointer = buffer ar + Arena.current_offset ar
      in case align current_pointer alignment of
           Inl e \<Rightarrow> Inl e
         | Inr aligned \<Rightarrow>
             (let offset = aligned - buffer ar
              in if offset + sz \<le> buffer_length ar then
                   (let p = buffer ar + offset;
                        ar' = ar\<lparr>Arena.previous_offset := offset,
                                 Arena.current_offset := offset + sz\<rparr>;
                        stored = (arenas s)(a := ar')
                    in case memset ar (bytes s) p 0 sz of
                         None \<Rightarrow> Inl (Memory_Fault stored)
                       | Some zeroed \<Rightarrow> Inr (Some p, s\<lparr>arenas := stored, bytes := zeroed\<rparr>))
                 else Inr (None, s)))"

definition arena_alloc ::
  "machine \<Rightarrow> arena_ptr \<Rightarrow> size_t \<Rightarrow> error + (uintptr_t option \<times> machine)" where
  "arena_alloc s a sz = arena_alloc_align s a sz DEFAULT_ALIGNMENT"

definition arena_init :: "machine \<Rightarrow> arena_ptr \<Rightarrow> uintptr_t \<Rightarrow> size_t \<Rightarrow> machine" where
  "arena_init s a buf len =
     s\<lparr>arenas := (arenas s)(a := (arenas s a)
          \<lparr>buffer := buf,
           buffer_length := len,
           Arena.current_offset := 0,
           Arena.previous_offset := 0\<rparr>)\<rparr>"

definition arena_free :: "machine \<Rightarrow> arena_ptr \<Rightarrow> machine" where
  "arena_free s a =
     s\<lparr>arenas := (arenas s)(a := (arenas s a)
          \<lparr>Arena.current_offset := 0,
           Arena.previous_offset := 0\<rparr>)\<rparr>"

definition arena_create_checkpoint :: "machine \<Rightarrow> arena_ptr \<Rightarrow> Arena_Checkpoint" where
  "arena_create_checkpoint s a =
     \<lparr>arena = a,
      previous_offset = Arena.previous_offset (arenas s a),
      current_offset = Arena.current_offset (arenas s a)\<rparr>"

definition arena_restore :: "machine \<Rightarrow> Arena_Checkpoint \<Rightarrow> machine" where
  "arena_restore s checkpoint =
     s\<lparr>arenas := (arenas s)(arena checkpoint := (arenas s (arena checkpoint))
          \<lparr>Arena.previous_offset := Arena_Checkpoint.previous_offset checkpoint,
           Arena.current_offset := Arena_Checkpoint.current_offset checkpoint\<rparr>)\<rparr>"

section \<open>Notions the properties are stated with\<close>

text \<open>
  The value of the local variable \<^verbatim>\<open>offset\<close> of \<^verbatim>\<open>arena_alloc_align\<close> at its capacity
  check: the cursor, pushed forward until its address is aligned.
\<close>

definition aligned_offset :: "Arena \<Rightarrow> size_t \<Rightarrow> error + size_t" where
  "aligned_offset ar alignment =
     (case align (buffer ar + Arena.current_offset ar) alignment of
        Inl e \<Rightarrow> Inl e
      | Inr aligned \<Rightarrow> Inr (aligned - buffer ar))"

text \<open>
  Rounding up in exact arithmetic, on natural numbers: \<open>round_up n a\<close> is \<open>n\<close> pushed
  forward to a multiple of \<open>a\<close>, by the steps of \<open>align\<close> without the wrap-around.
\<close>

definition round_up :: "nat \<Rightarrow> nat \<Rightarrow> nat" where
  "round_up n a = (if n mod a = 0 then n else n + (a - n mod a))"

text \<open>The invariant of the data model, on one arena object.\<close>

definition arena_invariant :: "Arena \<Rightarrow> bool" where
  "arena_invariant ar \<longleftrightarrow>
     0 \<le> Arena.previous_offset ar
     \<and> Arena.previous_offset ar \<le> Arena.current_offset ar
     \<and> Arena.current_offset ar \<le> buffer_length ar"

text \<open>
  What a caller sees of a call on the arena \<open>a\<close>: the offset of the returned region from
  the start of the buffer (\<open>None\<close> for \<^verbatim>\<open>NULL\<close>), then \<^verbatim>\<open>previous_offset\<close> and
  \<^verbatim>\<open>current_offset\<close> after the call.
\<close>

definition outcome ::
  "arena_ptr \<Rightarrow> error + (uintptr_t option \<times> machine) \<Rightarrow> error + (size_t option \<times> size_t \<times> size_t)" where
  "outcome a r =
     (case r of
        Inl e \<Rightarrow> Inl e
      | Inr (p, s) \<Rightarrow>
          Inr (map_option (\<lambda>q. q - buffer (arenas s a)) p,
               Arena.previous_offset (arenas s a),
               Arena.current_offset (arenas s a)))"

text \<open>
  A caller making one allocation after the other on the arena \<open>a\<close>, each request a size
  and an alignment (\<open>arena_alloc\<close> is the request with \<open>DEFAULT_ALIGNMENT\<close>): the returned
  pointers in order, and the machine after the last call.
\<close>

fun alloc_all ::
  "machine \<Rightarrow> arena_ptr \<Rightarrow> (size_t \<times> size_t) list \<Rightarrow> error + (uintptr_t option list \<times> machine)" where
  "alloc_all s a [] = Inr ([], s)"
| "alloc_all s a ((sz, alignment) # reqs) =
     (case arena_alloc_align s a sz alignment of
        Inl e \<Rightarrow> Inl e
      | Inr (p, s') \<Rightarrow>
          (case alloc_all s' a reqs of
             Inl e \<Rightarrow> Inl e
           | Inr (ps, s'') \<Rightarrow> Inr (p # ps, s'')))"

text \<open>
  A notion of the specification, not a function of \<^verbatim>\<open>arena.c\<close>: the total aligned size
  of a sequence of requests on a buffer at address \<open>B\<close>, from the cursor \<open>c\<close>. It is the
  sizes and the alignment gaps in front of them, added up exactly, without wrap-around.
  \<open>exact_regions\<close> lists, in the same exact arithmetic, the start offset and the size of
  each region.
\<close>

fun total_aligned_size :: "nat \<Rightarrow> nat \<Rightarrow> (size_t \<times> size_t) list \<Rightarrow> nat" where
  "total_aligned_size B c [] = c"
| "total_aligned_size B c ((sz, alignment) # reqs) =
     total_aligned_size B (round_up (B + c) (unat alignment) - B + unat sz) reqs"

fun exact_regions :: "nat \<Rightarrow> nat \<Rightarrow> (size_t \<times> size_t) list \<Rightarrow> (nat \<times> nat) list" where
  "exact_regions B c [] = []"
| "exact_regions B c ((sz, alignment) # reqs) =
     (round_up (B + c) (unat alignment) - B, unat sz)
       # exact_regions B (round_up (B + c) (unat alignment) - B + unat sz) reqs"

text \<open>
  The region of \<open>sz\<close> bytes returned at address \<open>p\<close>, as the set of its byte offsets from
  the start \<open>buf\<close> of the buffer.
\<close>

definition region :: "uintptr_t \<Rightarrow> uintptr_t \<Rightarrow> size_t \<Rightarrow> nat set" where
  "region buf p sz = {unat (p - buf) ..< unat (p - buf) + unat sz}"

text \<open>
  A machine for the concrete examples: static storage holds no initialised arena, and
  every byte of memory holds stale data, \<open>0xAA\<close>.
\<close>

definition example_machine :: machine where
  "example_machine =
     \<lparr>arenas = (\<lambda>_. \<lparr>buffer = 0, buffer_length = 0, previous_offset = 0, current_offset = 0\<rparr>),
      bytes = (\<lambda>_. 0xAA)\<rparr>"

section \<open>Bit masks, alignment and exact rounding\<close>

lemma pow2_minus1: "(2::64 word) ^ k - 1 = mask k"
  by (simp add: mask_eq_exp_minus_1)

lemma and_pow2_minus1: "(p::64 word) AND (2 ^ k - 1) = take_bit k p"
  by (simp add: pow2_minus1 take_bit_eq_mask)

lemma pow2_is_power_of_two: "is_power_of_two (2 ^ k)"
  by (simp add: is_power_of_two_def and_pow2_minus1 take_bit_eq_mod)

lemma unat_take_bit_mod: "unat (take_bit k (p::64 word)) = unat p mod 2 ^ k"
proof -
  have "unat (take_bit k p) = take_bit k (unat p)"
    by (simp add: unsigned_take_bit_eq)
  then show ?thesis by (simp add: take_bit_eq_mod)
qed

lemma take_bit_zero_iff: "take_bit k (p::64 word) = 0 \<longleftrightarrow> unat p mod 2 ^ k = 0"
  by (metis unat_take_bit_mod unat_eq_0)

lemma of_nat_mod_pow2: "(of_nat (unat (p::64 word) mod 2 ^ k) :: 64 word) = take_bit k p"
  by (simp add: unat_take_bit_mod [symmetric])

lemma align_pow2: "align p (2 ^ k) = Inr (of_nat (round_up (unat p) (2 ^ k)))"
proof (cases "unat p mod 2 ^ k = 0")
  case True
  then show ?thesis
    by (simp add: align_def pow2_is_power_of_two and_pow2_minus1 take_bit_zero_iff round_up_def Let_def)
next
  case False
  have le: "unat p mod 2 ^ k \<le> 2 ^ k" by simp
  have "(of_nat (unat p + (2 ^ k - unat p mod 2 ^ k)) :: 64 word)
      = of_nat (unat p) + of_nat (2 ^ k - unat p mod 2 ^ k)"
    by (rule of_nat_add)
  also have "\<dots> = p + (of_nat (2 ^ k) - of_nat (unat p mod 2 ^ k))"
    by (simp only: of_nat_diff [OF le] of_nat_unat) simp
  also have "\<dots> = p + (2 ^ k - take_bit k p)"
    by (simp only: of_nat_mod_pow2) simp
  finally have "(of_nat (unat p + (2 ^ k - unat p mod 2 ^ k)) :: 64 word) = p + (2 ^ k - take_bit k p)" .
  with False show ?thesis
    by (simp add: align_def pow2_is_power_of_two and_pow2_minus1 take_bit_zero_iff round_up_def Let_def)
qed

lemma round_up_ge: "n \<le> round_up n a" by (simp add: round_up_def)

lemma round_up_eq:
  assumes "0 < a" and "n mod a \<noteq> 0"
  shows "round_up n a = a * Suc (n div a)"
proof -
  from assms have lt: "n mod a < a" by simp
  have "n = a * (n div a) + n mod a" by simp
  then have "n + (a - n mod a) = a * (n div a) + (n mod a + (a - n mod a))" by linarith
  also have "\<dots> = a * (n div a) + a" using lt by simp
  also have "\<dots> = a * Suc (n div a)" by simp
  finally show ?thesis using assms by (simp add: round_up_def)
qed

lemma round_up_dvd: "0 < a \<Longrightarrow> a dvd round_up n a"
  by (cases "n mod a = 0") (simp_all add: round_up_eq, simp add: round_up_def mod_eq_0_iff_dvd)

lemma round_up_least:
  assumes nm: "n \<le> m" and dv: "a dvd m"
  shows "round_up n a \<le> m"
proof (cases "n mod a = 0")
  case True then show ?thesis using nm by (simp add: round_up_def)
next
  case False
  from dv obtain q where m: "m = a * q" by (auto simp: dvd_def)
  have pos: "0 < a" using False dv nm by (cases a) auto
  have "n div a < q"
  proof (rule ccontr)
    assume "\<not> n div a < q"
    then have "q \<le> n div a" by simp
    then have "a * q \<le> a * (n div a)" by simp
    also have "\<dots> \<le> n" by simp
    finally have "m = n" using nm m by simp
    with dv False show False by (simp add: mod_eq_0_iff_dvd)
  qed
  then have "Suc (n div a) \<le> q" by simp
  then have "a * Suc (n div a) \<le> a * q" by (rule mult_le_mono2)
  then show ?thesis using m round_up_eq [OF pos False] by simp
qed

lemma write_bytes_apply:
  "write_bytes mem p c n x = (if \<exists>i<n. x = p + of_nat i then c else mem x)"
  by (induction n) (auto simp: less_Suc_eq)

lemma arena_alloc_align_unfold:
  "arena_alloc_align s a sz alignment =
     (case aligned_offset (arenas s a) alignment of
        Inl e \<Rightarrow> Inl e
      | Inr offset \<Rightarrow>
          if offset + sz \<le> buffer_length (arenas s a) then
            if unat offset + unat sz \<le> unat (buffer_length (arenas s a)) then
              Inr (Some (buffer (arenas s a) + offset),
                   s\<lparr>arenas := (arenas s)(a := (arenas s a)
                        \<lparr>Arena.previous_offset := offset, Arena.current_offset := offset + sz\<rparr>),
                     bytes := write_bytes (bytes s) (buffer (arenas s a) + offset) 0 (unat sz)\<rparr>)
            else
              Inl (Memory_Fault ((arenas s)(a := (arenas s a)
                        \<lparr>Arena.previous_offset := offset, Arena.current_offset := offset + sz\<rparr>)))
          else Inr (None, s))"
  by (simp add: arena_alloc_align_def aligned_offset_def memset_def Let_def split: sum.splits)

lemma unat_pow2:
  assumes "k < 64"
  shows "unat ((2::64 word) ^ k) = 2 ^ k"
proof -
  have "unat ((2::64 word) ^ k) = unat (word_of_nat (2 ^ k) :: 64 word)" by simp
  also have "\<dots> = 2 ^ k mod 2 ^ LENGTH(64)" by (rule unat_of_nat)
  also have "\<dots> = 2 ^ k" using assms by (intro mod_less power_strict_increasing) simp_all
  finally show ?thesis .
qed

lemma pow2_dvd_range: "k < 64 \<Longrightarrow> (2::nat) ^ k dvd 2 ^ 64"
  by (rule le_imp_power_dvd) simp

lemma unat_align_pow2:
  assumes "align p (2 ^ k) = Inr q"
  shows "unat q = round_up (unat p) (2 ^ k) mod 2 ^ 64"
proof -
  from assms have "q = of_nat (round_up (unat p) (2 ^ k))" by (simp add: align_pow2)
  then show ?thesis by (simp add: unat_of_nat)
qed

section \<open>The aligned offset in exact arithmetic\<close>

lemma round_up_pad: "round_up n a = n + (if n mod a = 0 then 0 else a - n mod a)"
  by (simp add: round_up_def)

lemma of_nat_mod_word: "(of_nat (x mod 2 ^ 64) :: 64 word) = of_nat x"
proof -
  have "(of_nat (unat (of_nat x :: 64 word)) :: 64 word) = of_nat x" by simp
  then show ?thesis by (simp add: unat_of_nat)
qed

lemma of_nat_round_up_mod:
  assumes "k < 64"
  shows "(of_nat (round_up (x mod 2 ^ 64) (2 ^ k)) :: 64 word) = of_nat (round_up x (2 ^ k))"
proof -
  have m: "x mod 2 ^ 64 mod 2 ^ k = x mod 2 ^ k"
    by (rule mod_mod_cancel) (rule pow2_dvd_range [OF assms])
  let ?d = "if x mod 2 ^ k = 0 then 0 else 2 ^ k - x mod 2 ^ k"
  have "(of_nat (round_up (x mod 2 ^ 64) (2 ^ k)) :: 64 word) = of_nat (x mod 2 ^ 64 + ?d)"
    by (simp only: round_up_pad m)
  also have "\<dots> = of_nat (x mod 2 ^ 64) + of_nat ?d" by (rule of_nat_add)
  also have "\<dots> = of_nat x + of_nat ?d" by (simp only: of_nat_mod_word)
  also have "\<dots> = of_nat (x + ?d)" by (rule of_nat_add [symmetric])
  also have "\<dots> = of_nat (round_up x (2 ^ k))" by (simp only: round_up_pad)
  finally show ?thesis .
qed

lemma aligned_offset_exact:
  assumes "k < 64"
  shows "aligned_offset ar (2 ^ k) =
     Inr (of_nat (round_up (unat (buffer ar) + unat (Arena.current_offset ar)) (2 ^ k)
                  - unat (buffer ar)))"
proof -
  let ?B = "unat (buffer ar)" and ?c = "unat (Arena.current_offset ar)"
  let ?R = "round_up (?B + ?c) (2 ^ k)"
  have u: "unat (buffer ar + Arena.current_offset ar) = (?B + ?c) mod 2 ^ 64"
    by (simp add: unat_word_ariths)
  have le: "?B \<le> ?R"
    using round_up_ge [of "?B + ?c" "2 ^ k"] by linarith
  have "(of_nat (round_up (unat (buffer ar + Arena.current_offset ar)) (2 ^ k)) :: 64 word) - buffer ar
      = of_nat ?R - of_nat ?B"
    by (simp only: u of_nat_round_up_mod [OF assms] of_nat_unat) simp
  also have "\<dots> = of_nat (?R - ?B)"
    by (rule of_nat_diff [OF le, symmetric])
  finally show ?thesis
    by (simp add: aligned_offset_def align_pow2)
qed

lemma round_up_aligned_base:
  assumes "B mod a = 0"
  shows "round_up (B + c) a - B = round_up c a"
proof -
  have "(B + c) mod a = c mod a" using mod_add_left_eq [of B a c] assms by simp
  then show ?thesis by (simp add: round_up_pad)
qed

lemma aligned_offset_aligned_base:
  assumes "k < 64" and "unat (buffer ar) mod 2 ^ k = 0"
  shows "aligned_offset ar (2 ^ k) = align (Arena.current_offset ar) (2 ^ k)"
  by (simp only: aligned_offset_exact [OF assms(1)] round_up_aligned_base [OF assms(2)] align_pow2)

lemma aligned_offset_16:
  assumes "unat (buffer ar) mod 16 = 0"
  shows "aligned_offset ar 16 = align (Arena.current_offset ar) 16"
  using aligned_offset_aligned_base [of 4 ar] assms by simp

lemma arena_alloc_unfold_16:
  assumes "unat (buffer (arenas s a)) mod 16 = 0"
  shows "arena_alloc s a sz =
     (case align (Arena.current_offset (arenas s a)) 16 of
        Inl e \<Rightarrow> Inl e
      | Inr offset \<Rightarrow>
          if offset + sz \<le> buffer_length (arenas s a) then
            if unat offset + unat sz \<le> unat (buffer_length (arenas s a)) then
              Inr (Some (buffer (arenas s a) + offset),
                   s\<lparr>arenas := (arenas s)(a := (arenas s a)
                        \<lparr>Arena.previous_offset := offset, Arena.current_offset := offset + sz\<rparr>),
                     bytes := write_bytes (bytes s) (buffer (arenas s a) + offset) 0 (unat sz)\<rparr>)
            else
              Inl (Memory_Fault ((arenas s)(a := (arenas s a)
                        \<lparr>Arena.previous_offset := offset, Arena.current_offset := offset + sz\<rparr>)))
          else Inr (None, s))"
  by (simp add: arena_alloc_def DEFAULT_ALIGNMENT_def sizeof_void_ptr_def arena_alloc_align_unfold
      aligned_offset_16 [OF assms])

section \<open>A sequence of allocations against its exact layout\<close>

lemma total_aligned_size_ge: "c \<le> total_aligned_size B c reqs"
proof (induction reqs arbitrary: c)
  case Nil
  show ?case by simp
next
  case (Cons r reqs)
  obtain sz al where r: "r = (sz, al)" by (cases r)
  have "B + c \<le> round_up (B + c) (unat al)" by (rule round_up_ge)
  then have "c \<le> round_up (B + c) (unat al) - B + unat sz" by linarith
  also have "\<dots> \<le> total_aligned_size B (round_up (B + c) (unat al) - B + unat sz) reqs"
    by (rule Cons.IH)
  finally show ?case by (simp add: r)
qed

lemma length_exact_regions: "length (exact_regions B c reqs) = length reqs"
  by (induction B c reqs rule: exact_regions.induct) simp_all

lemma snd_exact_regions:
  "i < length reqs \<Longrightarrow> snd (exact_regions B c reqs ! i) = unat (fst (reqs ! i))"
proof (induction B c reqs arbitrary: i rule: exact_regions.induct)
  case (1 B c)
  then show ?case by simp
next
  case (2 B c sz alignment reqs)
  then show ?case by (cases i) simp_all
qed

lemma exact_regions_bounds:
  "(off, n) \<in> set (exact_regions B c reqs) \<Longrightarrow> c \<le> off \<and> off + n \<le> total_aligned_size B c reqs"
proof (induction B c reqs rule: exact_regions.induct)
  case (1 B c)
  then show ?case by simp
next
  case (2 B c sz alignment reqs)
  let ?o = "round_up (B + c) (unat alignment) - B"
  have ge: "c \<le> ?o" using round_up_ge [of "B + c" "unat alignment"] by linarith
  from "2.prems" consider "(off, n) = (?o, unat sz)"
    | "(off, n) \<in> set (exact_regions B (?o + unat sz) reqs)" by auto
  then show ?case
  proof cases
    case 1
    then show ?thesis
      using ge total_aligned_size_ge [of "?o + unat sz" B reqs] by simp
  next
    case 2
    from "2.IH" [OF 2] show ?thesis using ge by simp
  qed
qed

lemma exact_regions_ordered:
  "i < j \<Longrightarrow> j < length reqs \<Longrightarrow>
   fst (exact_regions B c reqs ! i) + snd (exact_regions B c reqs ! i) \<le> fst (exact_regions B c reqs ! j)"
proof (induction B c reqs arbitrary: i j rule: exact_regions.induct)
  case (1 B c)
  then show ?case by simp
next
  case (2 B c sz alignment reqs)
  let ?o = "round_up (B + c) (unat alignment) - B"
  from "2.prems" obtain j' where j: "j = Suc j'" and j': "j' < length reqs" by (cases j) auto
  show ?case
  proof (cases i)
    case 0
    have "exact_regions B (?o + unat sz) reqs ! j' \<in> set (exact_regions B (?o + unat sz) reqs)"
      using j' by (simp add: length_exact_regions)
    then have "?o + unat sz \<le> fst (exact_regions B (?o + unat sz) reqs ! j')"
      using exact_regions_bounds [of "fst (exact_regions B (?o + unat sz) reqs ! j')"
          "snd (exact_regions B (?o + unat sz) reqs ! j')" B "?o + unat sz" reqs]
      by simp
    then show ?thesis using 0 j by simp
  next
    case (Suc i')
    with "2.prems" j have "i' < j'" by simp
    from "2.IH" [OF this j'] show ?thesis using Suc j by simp
  qed
qed

lemma exact_regions_within:
  assumes "i < length reqs"
  shows "fst (exact_regions B c reqs ! i) + snd (exact_regions B c reqs ! i) \<le> total_aligned_size B c reqs"
proof -
  have "exact_regions B c reqs ! i \<in> set (exact_regions B c reqs)"
    using assms by (simp add: length_exact_regions)
  then show ?thesis
    using exact_regions_bounds [of "fst (exact_regions B c reqs ! i)" "snd (exact_regions B c reqs ! i)" B c reqs]
    by simp
qed

lemma unat_of_nat_small: "n < 2 ^ 64 \<Longrightarrow> unat (of_nat n :: 64 word) = n"
  by (simp add: unat_of_nat)

lemma alloc_step_exact:
  fixes s :: machine and a :: arena_ptr and k :: nat
  defines "off \<equiv> round_up (unat (buffer (arenas s a)) + unat (Arena.current_offset (arenas s a))) (2 ^ k)
                   - unat (buffer (arenas s a))"
  assumes k: "k < 64"
    and fit: "off + unat sz \<le> unat (buffer_length (arenas s a))"
  shows "\<exists>s'. arena_alloc_align s a sz (2 ^ k) = Inr (Some (buffer (arenas s a) + of_nat off), s')
           \<and> buffer (arenas s' a) = buffer (arenas s a)
           \<and> buffer_length (arenas s' a) = buffer_length (arenas s a)
           \<and> unat (Arena.current_offset (arenas s' a)) = off + unat sz"
proof -
  have L: "unat (buffer_length (arenas s a)) < 2 ^ 64"
    using unsigned_less [of "buffer_length (arenas s a)"] by simp
  have ao: "aligned_offset (arenas s a) (2 ^ k) = Inr (of_nat off)"
    unfolding off_def by (rule aligned_offset_exact [OF k])
  have lt: "off < 2 ^ 64" using fit L by linarith
  have uo: "unat (of_nat off :: 64 word) = off" by (rule unat_of_nat_small [OF lt])
  have "unat (of_nat off :: 64 word) + unat sz < 2 ^ LENGTH(64)"
    using fit L by (simp add: uo)
  then have "unat (of_nat off + sz) = unat (of_nat off :: 64 word) + unat sz"
    by (simp only: unat_add_lem)
  then have us: "unat (of_nat off + sz) = off + unat sz"
    by (simp only: uo)
  have chk: "of_nat off + sz \<le> buffer_length (arenas s a)"
    using fit by (simp add: word_le_nat_alt us)
  show ?thesis
    using fit by (simp add: arena_alloc_align_unfold ao chk us uo)
qed

lemma alloc_all_exact:
  assumes "\<forall>(sz, alignment) \<in> set reqs. \<exists>k<64. alignment = 2 ^ k"
    and "total_aligned_size (unat (buffer (arenas s a))) (unat (Arena.current_offset (arenas s a))) reqs
           \<le> unat (buffer_length (arenas s a))"
  shows "\<exists>s'. alloc_all s a reqs =
           Inr (map (\<lambda>(off, n). Some (buffer (arenas s a) + of_nat off))
                  (exact_regions (unat (buffer (arenas s a))) (unat (Arena.current_offset (arenas s a))) reqs),
                s')"
  using assms
proof (induction reqs arbitrary: s)
  case Nil
  show ?case by simp
next
  case (Cons r reqs)
  obtain sz al where r: "r = (sz, al)" by (cases r)
  from Cons.prems(1) r obtain k where k: "k < 64" and al: "al = 2 ^ k" by auto
  have ual: "unat al = 2 ^ k" by (simp only: al unat_pow2 [OF k])
  let ?B = "unat (buffer (arenas s a))" and ?c = "unat (Arena.current_offset (arenas s a))"
  let ?off = "round_up (?B + ?c) (2 ^ k) - ?B"
  have tot: "total_aligned_size ?B (?off + unat sz) reqs \<le> unat (buffer_length (arenas s a))"
    using Cons.prems(2) by (simp add: r ual)
  have fit: "?off + unat sz \<le> unat (buffer_length (arenas s a))"
    using total_aligned_size_ge [of "?off + unat sz" ?B reqs] tot by linarith
  from alloc_step_exact [OF k fit]
  obtain s1 where c1: "arena_alloc_align s a sz (2 ^ k) = Inr (Some (buffer (arenas s a) + of_nat ?off), s1)"
    and b1: "buffer (arenas s1 a) = buffer (arenas s a)"
    and l1: "buffer_length (arenas s1 a) = buffer_length (arenas s a)"
    and o1: "unat (Arena.current_offset (arenas s1 a)) = ?off + unat sz"
    by (elim exE conjE)
  have p1: "\<forall>(sz, alignment) \<in> set reqs. \<exists>k<64. alignment = 2 ^ k"
    using Cons.prems(1) by simp
  have t1: "total_aligned_size (unat (buffer (arenas s1 a))) (unat (Arena.current_offset (arenas s1 a))) reqs
           \<le> unat (buffer_length (arenas s1 a))"
    using tot by (simp only: b1 l1 o1)
  from Cons.IH [OF p1 t1]
  obtain s' where c2: "alloc_all s1 a reqs =
           Inr (map (\<lambda>(off, n). Some (buffer (arenas s a) + of_nat off))
                  (exact_regions ?B (?off + unat sz) reqs), s')"
    by (simp only: b1 l1 o1) (elim exE)
  show ?case
    by (simp add: r al c1 c2 ual [unfolded al])
qed

text \<open>The definitions a concrete call is evaluated with.\<close>

lemmas eval_defs = arena_alloc_align_unfold aligned_offset_def align_def is_power_of_two_def
  arena_init_def arena_alloc_def DEFAULT_ALIGNMENT_def sizeof_void_ptr_def example_machine_def Let_def

section \<open>Checkpoint and restore\<close>

text \<open>
  C7. Restoring a checkpoint of an arena right after it was taken changes nothing: the
  machine is the same, so \<^verbatim>\<open>previous_offset\<close> and \<^verbatim>\<open>current_offset\<close> are unchanged and
  whatever allocation comes next gives the result it would have given without the pair.
\<close>

theorem restore_checkpoint_noop:
  "arena_restore s (arena_create_checkpoint s a) = s
   \<and> Arena.previous_offset (arenas (arena_restore s (arena_create_checkpoint s a)) a)
       = Arena.previous_offset (arenas s a)
   \<and> Arena.current_offset (arenas (arena_restore s (arena_create_checkpoint s a)) a)
       = Arena.current_offset (arenas s a)
   \<and> arena_alloc_align (arena_restore s (arena_create_checkpoint s a)) a sz alignment
       = arena_alloc_align s a sz alignment
   \<and> arena_alloc (arena_restore s (arena_create_checkpoint s a)) a sz
       = arena_alloc s a sz"
proof -
  have "arena_restore s (arena_create_checkpoint s a) = s"
    by (simp add: arena_restore_def arena_create_checkpoint_def)
  then show ?thesis by simp
qed

section \<open>The alignment utility\<close>

text \<open>
  C6, as amended. \<open>align\<close> is a function of its two arguments and touches no state. For an
  alignment \<open>2 ^ k\<close> and an address with a multiple of the alignment at or above it that
  still fits in 64 bits (\<open>address \<le> 2 ^ 64 - alignment\<close>), it returns the smallest multiple
  of the alignment that is greater than or equal to the address.
\<close>

theorem align_least_multiple:
  assumes "k < 64" and "alignment = 2 ^ k" and "unat address \<le> 2 ^ 64 - unat alignment"
  shows "\<exists>q. align address alignment = Inr q
           \<and> unat address \<le> unat q
           \<and> unat alignment dvd unat q
           \<and> (\<forall>m. unat address \<le> m \<and> unat alignment dvd m \<longrightarrow> unat q \<le> m)"
proof -
  have al: "unat alignment = 2 ^ k" using assms(2) by (simp add: unat_pow2 [OF assms(1)])
  let ?r = "round_up (unat address) (2 ^ k)"
  have "(2::nat) ^ k dvd 2 ^ 64 - 2 ^ k"
    using pow2_dvd_range [OF assms(1)] by (simp add: dvd_diff_nat)
  then have "?r \<le> 2 ^ 64 - 2 ^ k"
    using assms(3) al by (simp add: round_up_least)
  moreover have "(0::nat) < 2 ^ k" by simp
  moreover have "(2::nat) ^ k \<le> 2 ^ 64" using assms(1) by (intro power_increasing) simp_all
  ultimately have lt: "?r < 2 ^ 64" by linarith
  have q: "align address alignment = Inr (of_nat ?r)"
    by (simp add: assms(2) align_pow2)
  have u: "unat (of_nat ?r :: 64 word) = ?r"
    using lt by (simp add: unat_of_nat)
  show ?thesis
    using q u al by (auto simp: round_up_ge round_up_dvd round_up_least)
qed

theorem align_least_multiple_witness:
  "unat (10::uintptr_t) \<le> 2 ^ 64 - unat (16::size_t)
   \<and> (\<exists>q. align 10 16 = Inr q \<and> unat (10::uintptr_t) \<le> unat q \<and> unat (16::size_t) dvd unat q
          \<and> unat q = 16)"
proof -
  have h: "unat (10::uintptr_t) \<le> 2 ^ 64 - unat (16::size_t)" by simp
  have e: "(16::size_t) = 2 ^ 4" by simp
  have k: "(4::nat) < 64" by simp
  from align_least_multiple [OF k e h]
  obtain q where q: "align 10 16 = Inr q \<and> unat (10::uintptr_t) \<le> unat q \<and> unat (16::size_t) dvd unat q
    \<and> (\<forall>m. unat (10::uintptr_t) \<le> m \<and> unat (16::size_t) dvd m \<longrightarrow> unat q \<le> m)" ..
  have "align 10 16 = Inr 16" by (simp add: align_def is_power_of_two_def Let_def)
  with q have "q = 16" by simp
  then have "unat q = 16" by simp
  with q have "align 10 16 = Inr q \<and> unat (10::uintptr_t) \<le> unat q \<and> unat (16::size_t) dvd unat q
          \<and> unat q = 16" by (simp only: simp_thms)
  then have "\<exists>q. align 10 16 = Inr q \<and> unat (10::uintptr_t) \<le> unat q \<and> unat (16::size_t) dvd unat q
          \<and> unat q = 16" by (rule exI)
  with h show ?thesis by (rule conjI)
qed

text \<open>
  C6 as stated fails at the top of the address space: the next multiple of 16 after
  \<open>2 ^ 64 - 1\<close> is \<open>2 ^ 64\<close>, the addition wraps, and \<open>align\<close> returns 0, which is below
  the address.
\<close>

theorem align_wraps_counterexample:
  "align 0xFFFFFFFFFFFFFFFF 16 = Inr 0 \<and> (0::uintptr_t) < 0xFFFFFFFFFFFFFFFF"
  by (simp add: align_def is_power_of_two_def Let_def)

text \<open>
  C9. \<open>is_power_of_two 0\<close> holds, so the assertion of \<open>align\<close> lets the alignment 0
  through: the call returns (the address 0) instead of trapping, although 0 is none of the
  powers of two \<open>2 ^ 0\<close>, ..., \<open>2 ^ 63\<close>.
\<close>

theorem zero_passes_power_of_two_check:
  "is_power_of_two 0 \<and> align p 0 = Inr 0 \<and> (0::uintptr_t) \<notin> {2 ^ k | k. k < 64}"
  by (simp add: align_def is_power_of_two_def Let_def)

section \<open>Allocation\<close>

text \<open>
  C1. An arena is initialised over a buffer, and a sequence of allocations follows, each
  with an alignment \<open>2 ^ k\<close>, whose total aligned size is at most the capacity of the
  buffer. Then every allocation succeeds, every returned region lies within the buffer
  (its start offset plus its size is at most \<open>buffer_length\<close>), and the regions are
  pairwise disjoint.
\<close>

theorem allocations_disjoint_within_buffer:
  assumes "\<forall>(sz, alignment) \<in> set reqs. \<exists>k<64. alignment = 2 ^ k"
    and "total_aligned_size (unat buf) 0 reqs \<le> unat len"
  shows "\<exists>ps s'. alloc_all (arena_init s a buf len) a reqs = Inr (map Some ps, s')
           \<and> length ps = length reqs
           \<and> (\<forall>i<length reqs. unat (ps ! i - buf) + unat (fst (reqs ! i)) \<le> unat len)
           \<and> (\<forall>i j. i < j \<and> j < length reqs \<longrightarrow>
                 region buf (ps ! i) (fst (reqs ! i)) \<inter> region buf (ps ! j) (fst (reqs ! j)) = {})"
proof -
  let ?s0 = "arena_init s a buf len"
  let ?rs = "exact_regions (unat buf) 0 reqs"
  let ?ps = "map (\<lambda>(off, n). buf + of_nat off) ?rs :: uintptr_t list"
  have a0: "buffer (arenas ?s0 a) = buf" "buffer_length (arenas ?s0 a) = len"
    "Arena.current_offset (arenas ?s0 a) = 0"
    by (simp_all add: arena_init_def)
  have t0: "total_aligned_size (unat (buffer (arenas ?s0 a))) (unat (Arena.current_offset (arenas ?s0 a))) reqs
      \<le> unat (buffer_length (arenas ?s0 a))"
    using assms(2) by (simp only: a0) simp
  from alloc_all_exact [OF assms(1) t0]
  obtain s' where run: "alloc_all ?s0 a reqs = Inr (map (\<lambda>(off, n). Some (buf + of_nat off)) ?rs, s')"
    by (simp only: a0) (simp, elim exE)
  have m: "map (\<lambda>(off, n). Some (buf + of_nat off)) ?rs = map Some ?ps"
    by (simp add: case_prod_beta)
  have len_ps: "length ?ps = length reqs" by (simp add: length_exact_regions)
  have L: "unat len < 2 ^ 64" using unsigned_less [of len] by simp
  have off: "unat (?ps ! i - buf) = fst (?rs ! i)" if "i < length reqs" for i
  proof -
    have "fst (?rs ! i) + snd (?rs ! i) \<le> total_aligned_size (unat buf) 0 reqs"
      by (rule exact_regions_within [OF that])
    then have "fst (?rs ! i) < 2 ^ 64" using assms(2) L by linarith
    then have "unat (of_nat (fst (?rs ! i)) :: 64 word) = fst (?rs ! i)"
      by (rule unat_of_nat_small)
    then show ?thesis using that by (simp add: length_exact_regions case_prod_beta)
  qed
  have within: "unat (?ps ! i - buf) + unat (fst (reqs ! i)) \<le> unat len" if "i < length reqs" for i
  proof -
    have "fst (?rs ! i) + snd (?rs ! i) \<le> total_aligned_size (unat buf) 0 reqs"
      by (rule exact_regions_within [OF that])
    then have "unat (?ps ! i - buf) + unat (fst (reqs ! i)) \<le> total_aligned_size (unat buf) 0 reqs"
      by (simp only: off [OF that] snd_exact_regions [OF that])
    then show ?thesis using assms(2) by (rule order_trans)
  qed
  have disj: "region buf (?ps ! i) (fst (reqs ! i)) \<inter> region buf (?ps ! j) (fst (reqs ! j)) = {}"
    if "i < j" and "j < length reqs" for i j
  proof -
    from that have i: "i < length reqs" by simp
    have "fst (?rs ! i) + snd (?rs ! i) \<le> fst (?rs ! j)"
      by (rule exact_regions_ordered [OF that])
    then have "unat (?ps ! i - buf) + unat (fst (reqs ! i)) \<le> unat (?ps ! j - buf)"
      by (simp only: off [OF i] off [OF that(2)] snd_exact_regions [OF i])
    then show ?thesis by (auto simp: region_def)
  qed
  show ?thesis
    apply (rule exI [of _ ?ps], rule exI [of _ s'])
    apply (intro conjI allI impI)
       apply (simp only: run m)
      apply (rule len_ps)
     apply (rule within, assumption)
    apply (rule disj, simp, simp)
    done
qed

theorem allocations_disjoint_within_buffer_witness:
  "total_aligned_size (unat (4104::uintptr_t)) 0 [(10, 16), (5, 4), (20, 16)] = 60
   \<and> (\<exists>s'. alloc_all (arena_init example_machine 0 4104 64) 0 [(10, 16), (5, 4), (20, 16)]
             = Inr ([Some 4112, Some 4124, Some 4144], s'))
   \<and> unat (4112 - 4104 :: uintptr_t) + unat (10::size_t) \<le> unat (64::size_t)
   \<and> unat (4124 - 4104 :: uintptr_t) + unat (5::size_t) \<le> unat (64::size_t)
   \<and> unat (4144 - 4104 :: uintptr_t) + unat (20::size_t) \<le> unat (64::size_t)
   \<and> region 4104 4112 10 \<inter> region 4104 4124 5 = {}
   \<and> region 4104 4112 10 \<inter> region 4104 4144 20 = {}
   \<and> region 4104 4124 5 \<inter> region 4104 4144 20 = {}"
proof -
  let ?reqs = "[(10, 16), (5, 4), (20, 16)] :: (size_t \<times> size_t) list"
  have e16: "\<exists>k<64. (16::size_t) = 2 ^ k" by (rule exI [of _ 4]) simp
  have e4: "\<exists>k<64. (4::size_t) = 2 ^ k" by (rule exI [of _ 2]) simp
  have pow: "\<forall>(sz, alignment) \<in> set ?reqs. \<exists>k<64. alignment = 2 ^ k"
    using e16 e4 by simp
  have tot: "total_aligned_size (unat (4104::uintptr_t)) 0 ?reqs = 60"
    by (simp add: round_up_def)
  have fits: "total_aligned_size (unat (4104::uintptr_t)) 0 ?reqs \<le> unat (64::size_t)"
    by (simp only: tot) simp
  from allocations_disjoint_within_buffer [OF pow fits, of example_machine 0]
  obtain ps s' where run: "alloc_all (arena_init example_machine 0 4104 64) 0 ?reqs = Inr (map Some ps, s')"
    and within: "\<forall>i<length ?reqs. unat (ps ! i - 4104) + unat (fst (?reqs ! i)) \<le> unat (64::size_t)"
    and disj: "\<forall>i j. i < j \<and> j < length ?reqs \<longrightarrow>
                 region 4104 (ps ! i) (fst (?reqs ! i)) \<inter> region 4104 (ps ! j) (fst (?reqs ! j)) = {}"
    by (elim exE conjE)
  have "\<exists>s''. alloc_all (arena_init example_machine 0 4104 64) 0 ?reqs
      = Inr ([Some 4112, Some 4124, Some 4144], s'')"
    by (simp add: eval_defs)
  then obtain s'' where run': "alloc_all (arena_init example_machine 0 4104 64) 0 ?reqs
      = Inr ([Some 4112, Some 4124, Some 4144], s'')" ..
  from run run' have "map Some ps = [Some 4112, Some 4124, Some 4144]" by simp
  then have ps: "ps = [4112, 4124, 4144]" by (auto simp: map_eq_Cons_conv)
  have w0: "unat (4112 - 4104 :: uintptr_t) + unat (10::size_t) \<le> unat (64::size_t)"
    using within [rule_format, of 0] by (simp add: ps)
  have w1: "unat (4124 - 4104 :: uintptr_t) + unat (5::size_t) \<le> unat (64::size_t)"
    using within [rule_format, of 1] by (simp add: ps)
  have w2: "unat (4144 - 4104 :: uintptr_t) + unat (20::size_t) \<le> unat (64::size_t)"
    using within [rule_format, of 2] by (simp add: ps)
  have d01: "region 4104 4112 10 \<inter> region 4104 4124 5 = {}"
    using disj [rule_format, of 0 1] by (simp add: ps)
  have d02: "region 4104 4112 10 \<inter> region 4104 4144 20 = {}"
    using disj [rule_format, of 0 2] by (simp add: ps)
  have d12: "region 4104 4124 5 \<inter> region 4104 4144 20 = {}"
    using disj [rule_format, of 1 2] by (simp add: ps)
  have ex: "\<exists>s'. alloc_all (arena_init example_machine 0 4104 64) 0 ?reqs
             = Inr ([Some 4112, Some 4124, Some 4144], s')"
    using run' by (rule exI)
  show ?thesis
    using tot ex w0 w1 w2 d01 d02 d12 by (intro conjI)
qed

text \<open>
  C3. After a successful \<open>arena_alloc_align\<close>, each of the \<open>sz\<close> bytes of the returned
  region, at \<open>p\<close>, \<open>p + 1\<close>, ..., \<open>p + (sz - 1)\<close>, is zero.
\<close>

theorem alloc_zero_filled:
  assumes "arena_alloc_align s a sz alignment = Inr (Some p, s')"
  shows "\<forall>i < unat sz. bytes s' (p + of_nat i) = 0"
  using assms
  by (auto simp: arena_alloc_align_unfold write_bytes_apply split: sum.splits if_splits)

theorem alloc_zero_filled_witness:
  "\<exists>s'. arena_alloc_align (arena_init example_machine 0 4096 64) 0 3 16 = Inr (Some 4096, s')
     \<and> bytes example_machine 4096 = 0xAA
     \<and> bytes s' 4096 = 0 \<and> bytes s' 4097 = 0 \<and> bytes s' 4098 = 0"
proof -
  have "\<exists>s'. arena_alloc_align (arena_init example_machine 0 4096 64) 0 3 16 = Inr (Some 4096, s')"
    by (simp add: eval_defs)
  then obtain s' where c: "arena_alloc_align (arena_init example_machine 0 4096 64) 0 3 16 = Inr (Some 4096, s')" ..
  have z: "i < unat (3::size_t) \<Longrightarrow> bytes s' (4096 + of_nat i) = 0" for i
    using alloc_zero_filled [OF c] by simp
  have z0: "bytes s' 4096 = 0" using z [of 0] by simp
  have z1: "bytes s' 4097 = 0" using z [of 1] by simp
  have z2: "bytes s' 4098 = 0" using z [of 2] by simp
  have d: "bytes example_machine 4096 = 0xAA" by (simp add: example_machine_def)
  show ?thesis
    by (rule exI [of _ s']) (simp only: c z0 z1 z2 d simp_thms)
qed

text \<open>
  C4. For an alignment \<open>2 ^ k\<close>, the address returned by a successful
  \<open>arena_alloc_align\<close> is congruent to 0 modulo the alignment.
\<close>

theorem alloc_start_aligned:
  assumes "k < 64" and "alignment = 2 ^ k"
    and "arena_alloc_align s a sz alignment = Inr (Some p, s')"
  shows "unat p mod unat alignment = 0"
proof -
  from assms(2,3) obtain q where q: "align (buffer (arenas s a) + Arena.current_offset (arenas s a)) (2 ^ k) = Inr q"
    and p: "p = q"
    by (auto simp: arena_alloc_align_unfold aligned_offset_def split: sum.splits if_splits)
  have "(2::nat) ^ k dvd round_up (unat (buffer (arenas s a) + Arena.current_offset (arenas s a))) (2 ^ k)"
    by (rule round_up_dvd) simp
  then have "(2::nat) ^ k dvd unat q"
    using pow2_dvd_range [OF assms(1)] by (simp add: unat_align_pow2 [OF q] dvd_mod)
  then show ?thesis using assms(2) p by (simp add: mod_eq_0_iff_dvd unat_pow2 [OF assms(1)])
qed

theorem alloc_start_aligned_witness:
  "\<exists>s'. arena_alloc_align (arena_init example_machine 0 4100 64) 0 5 16 = Inr (Some 4112, s')
     \<and> unat (4112::uintptr_t) mod unat (16::size_t) = 0"
proof -
  have "\<exists>s'. arena_alloc_align (arena_init example_machine 0 4100 64) 0 5 16 = Inr (Some 4112, s')"
    by (simp add: eval_defs)
  then obtain s' where c: "arena_alloc_align (arena_init example_machine 0 4100 64) 0 5 16 = Inr (Some 4112, s')" ..
  have m: "unat (4112::uintptr_t) mod unat (16::size_t) = 0"
    by (rule alloc_start_aligned [of 4, OF _ _ c]) simp_all
  show ?thesis
    by (rule exI [of _ s']) (simp only: c m simp_thms)
qed

text \<open>
  C8, as amended. An arena is initialised over a 64-byte buffer whose base address is a
  multiple of 16, and allocations use the default alignment of 16. Then allocate(10) returns
  offset 0 and \<open>current_offset\<close> becomes 10; allocate(5) returns offset 16 and
  \<open>current_offset\<close> becomes 21; a checkpoint taken here holds (previous = 16, current = 21);
  allocate(50) fails and leaves the machine as it is, offsets (16, 21); restoring the
  checkpoint leaves the machine as it is; allocate(40) fails; allocate(30) returns offset 32
  and \<open>current_offset\<close> becomes 62.
\<close>

theorem scenario_64_bytes:
  assumes "unat B mod 16 = 0"
  shows "\<exists>s1 s2 s3.
      arena_alloc (arena_init s a B 64) a 10 = Inr (Some (B + 0), s1)
    \<and> Arena.current_offset (arenas s1 a) = 10
    \<and> arena_alloc s1 a 5 = Inr (Some (B + 16), s2)
    \<and> Arena.current_offset (arenas s2 a) = 21
    \<and> arena_create_checkpoint s2 a = \<lparr>arena = a, previous_offset = 16, current_offset = 21\<rparr>
    \<and> arena_alloc s2 a 50 = Inr (None, s2)
    \<and> Arena.previous_offset (arenas s2 a) = 16 \<and> Arena.current_offset (arenas s2 a) = 21
    \<and> arena_restore s2 (arena_create_checkpoint s2 a) = s2
    \<and> arena_alloc s2 a 40 = Inr (None, s2)
    \<and> arena_alloc s2 a 30 = Inr (Some (B + 32), s3)
    \<and> Arena.current_offset (arenas s3 a) = 62"
proof -
  let ?s0 = "arena_init s a B 64"
  have a0: "arenas ?s0 a = \<lparr>buffer = B, buffer_length = 64, previous_offset = 0, current_offset = 0\<rparr>"
    by (simp add: arena_init_def)
  have b0: "unat (buffer (arenas ?s0 a)) mod 16 = 0" using assms by (simp add: a0)
  have "\<exists>s1. arena_alloc ?s0 a 10 = Inr (Some (B + 0), s1)
      \<and> arenas s1 a = \<lparr>buffer = B, buffer_length = 64, previous_offset = 0, current_offset = 10\<rparr>"
    by (simp add: arena_alloc_unfold_16 [OF b0] a0 align_def is_power_of_two_def Let_def)
  then obtain s1 where c1: "arena_alloc ?s0 a 10 = Inr (Some (B + 0), s1)"
    and a1: "arenas s1 a = \<lparr>buffer = B, buffer_length = 64, previous_offset = 0, current_offset = 10\<rparr>"
    by (elim exE conjE)
  have b1: "unat (buffer (arenas s1 a)) mod 16 = 0" using assms by (simp add: a1)
  have "\<exists>s2. arena_alloc s1 a 5 = Inr (Some (B + 16), s2)
      \<and> arenas s2 a = \<lparr>buffer = B, buffer_length = 64, previous_offset = 16, current_offset = 21\<rparr>"
    by (simp add: arena_alloc_unfold_16 [OF b1] a1 align_def is_power_of_two_def Let_def)
  then obtain s2 where c2: "arena_alloc s1 a 5 = Inr (Some (B + 16), s2)"
    and a2: "arenas s2 a = \<lparr>buffer = B, buffer_length = 64, previous_offset = 16, current_offset = 21\<rparr>"
    by (elim exE conjE)
  have b2: "unat (buffer (arenas s2 a)) mod 16 = 0" using assms by (simp add: a2)
  have cp: "arena_create_checkpoint s2 a = \<lparr>arena = a, previous_offset = 16, current_offset = 21\<rparr>"
    by (simp add: arena_create_checkpoint_def a2)
  have c3: "arena_alloc s2 a 50 = Inr (None, s2)"
    by (simp add: arena_alloc_unfold_16 [OF b2] a2 align_def is_power_of_two_def Let_def)
  have rs: "arena_restore s2 (arena_create_checkpoint s2 a) = s2"
    by (simp add: arena_restore_def arena_create_checkpoint_def)
  have rs': "arena_restore s2 \<lparr>arena = a, previous_offset = 16, current_offset = 21\<rparr> = s2"
    using rs by (simp only: cp)
  have c4: "arena_alloc s2 a 40 = Inr (None, s2)"
    by (simp add: arena_alloc_unfold_16 [OF b2] a2 align_def is_power_of_two_def Let_def)
  have "\<exists>s3. arena_alloc s2 a 30 = Inr (Some (B + 32), s3)
      \<and> arenas s3 a = \<lparr>buffer = B, buffer_length = 64, previous_offset = 32, current_offset = 62\<rparr>"
    by (simp add: arena_alloc_unfold_16 [OF b2] a2 align_def is_power_of_two_def Let_def)
  then obtain s3 where c5: "arena_alloc s2 a 30 = Inr (Some (B + 32), s3)"
    and a3: "arenas s3 a = \<lparr>buffer = B, buffer_length = 64, previous_offset = 32, current_offset = 62\<rparr>"
    by (elim exE conjE)
  have o1: "Arena.current_offset (arenas s1 a) = 10" by (simp add: a1)
  have o2: "Arena.previous_offset (arenas s2 a) = 16" "Arena.current_offset (arenas s2 a) = 21"
    by (simp_all add: a2)
  have o3: "Arena.current_offset (arenas s3 a) = 62" by (simp add: a3)
  show ?thesis
    apply (rule exI [of _ s1], rule exI [of _ s2], rule exI [of _ s3])
    apply (simp only: c1 c2 c3 c4 c5 cp rs' o1 o2 o3 simp_thms)
    done
qed

theorem scenario_64_bytes_witness:
  "unat (4096::uintptr_t) mod 16 = 0
   \<and> (\<exists>s1 s2 s3.
      arena_alloc (arena_init example_machine 0 4096 64) 0 10 = Inr (Some (4096 + 0), s1)
    \<and> Arena.current_offset (arenas s1 0) = 10
    \<and> arena_alloc s1 0 5 = Inr (Some (4096 + 16), s2)
    \<and> Arena.current_offset (arenas s2 0) = 21
    \<and> arena_create_checkpoint s2 0 = \<lparr>arena = 0, previous_offset = 16, current_offset = 21\<rparr>
    \<and> arena_alloc s2 0 50 = Inr (None, s2)
    \<and> Arena.previous_offset (arenas s2 0) = 16 \<and> Arena.current_offset (arenas s2 0) = 21
    \<and> arena_restore s2 (arena_create_checkpoint s2 0) = s2
    \<and> arena_alloc s2 0 40 = Inr (None, s2)
    \<and> arena_alloc s2 0 30 = Inr (Some (4096 + 32), s3)
    \<and> Arena.current_offset (arenas s3 0) = 62)"
proof -
  have h: "unat (4096::uintptr_t) mod 16 = 0" by simp
  show ?thesis
    using h scenario_64_bytes [OF h, of example_machine 0] by (rule conjI)
qed

text \<open>
  C8 as stated, for any 64-byte buffer, fails: it is the address of the cursor that is
  aligned, not its offset. Over a buffer at address 4104, which is 8 modulo 16, the first
  allocate(10) returns offset 8, not 0, and \<open>current_offset\<close> becomes 18, not 10.
\<close>

theorem scenario_unaligned_buffer_counterexample:
  "outcome 0 (arena_alloc (arena_init example_machine 0 4104 64) 0 10) = Inr (Some 8, 8, 18)"
  by (simp add: outcome_def eval_defs)

section \<open>The capacity check and the invariant\<close>

text \<open>
  When the exact sum of the aligned offset and the size fits in 64 bits, the capacity check
  compares what it means to compare: a request beyond the capacity is rejected and the
  machine is unchanged, and an allocation keeps the invariant. So do \<open>arena_init\<close>,
  \<open>arena_free\<close> and the restore of a checkpoint taken while the invariant held.
\<close>

lemma alloc_rejected_without_wrap:
  assumes "aligned_offset (arenas s a) alignment = Inr off"
    and "unat off + unat sz < 2 ^ 64"
    and "unat (buffer_length (arenas s a)) < unat off + unat sz"
  shows "arena_alloc_align s a sz alignment = Inr (None, s)"
proof -
  have "unat off + unat sz < 2 ^ LENGTH(64)" using assms(2) by simp
  then have "unat (off + sz) = unat off + unat sz" by (simp only: unat_add_lem)
  then have "\<not> off + sz \<le> buffer_length (arenas s a)"
    using assms(3) by (simp add: word_le_nat_alt)
  then show ?thesis using assms(1) by (simp add: arena_alloc_align_unfold)
qed


lemma free_invariant: "arena_invariant (arenas (arena_free s a) a)"
  by (simp add: arena_invariant_def arena_free_def)

lemma restore_invariant:
  assumes "arena_invariant (arenas s0 a)" and "buffer_length (arenas s a) = buffer_length (arenas s0 a)"
  shows "arena_invariant (arenas (arena_restore s (arena_create_checkpoint s0 a)) a)"
  using assms by (simp add: arena_invariant_def arena_restore_def arena_create_checkpoint_def)

lemma alloc_invariant_without_wrap:
  assumes "arena_invariant (arenas s a)"
    and "aligned_offset (arenas s a) alignment = Inr off"
    and "unat off + unat sz < 2 ^ 64"
    and "arena_alloc_align s a sz alignment = Inr (p, s')"
  shows "arena_invariant (arenas s' a)"
proof -
  have "unat off + unat sz < 2 ^ LENGTH(64)" using assms(3) by simp
  then have "unat (off + sz) = unat off + unat sz" by (simp only: unat_add_lem)
  then have "off \<le> off + sz" by (simp add: word_le_nat_alt)
  then show ?thesis
    using assms(1,2,4)
    by (auto simp: arena_alloc_align_unfold arena_invariant_def split: if_splits)
qed


lemma accepted_over_capacity_wraps:
  fixes off sz len :: size_t
  assumes "off + sz \<le> len" and "unat len < unat off + unat sz"
  shows "2 ^ 64 \<le> unat off + unat sz"
proof (rule ccontr)
  assume "\<not> 2 ^ 64 \<le> unat off + unat sz"
  then have "unat off + unat sz < 2 ^ LENGTH(64)" by simp
  then have "unat (off + sz) = unat off + unat sz" by (simp only: unat_add_lem)
  with assms show False by (simp add: word_le_nat_alt)
qed

text \<open>
  C2, at the input where the code departs from it. Over a 64-byte buffer with the cursor at
  10, a request of \<open>2 ^ 64 - 16\<close> bytes at alignment 16 has the aligned offset 16, and 16
  plus the size is \<open>2 ^ 64\<close>, far more than the capacity. The sum wraps to 0 and the check
  passes: the call does not return the failure result, the offsets change from (0, 10) to
  (16, 0), and the \<^verbatim>\<open>memset\<close> of the size runs past the buffer.
\<close>

theorem capacity_overflow_accepted:
  "\<exists>s1 st. arena_alloc (arena_init example_machine 0 4096 64) 0 10 = Inr (Some 4096, s1)
     \<and> Arena.previous_offset (arenas s1 0) = 0 \<and> Arena.current_offset (arenas s1 0) = 10
     \<and> aligned_offset (arenas s1 0) 16 = Inr 16
     \<and> unat (buffer_length (arenas s1 0)) < unat (16::size_t) + unat (0xFFFFFFFFFFFFFFF0::size_t)
     \<and> arena_alloc_align s1 0 0xFFFFFFFFFFFFFFF0 16 \<noteq> Inr (None, s1)
     \<and> arena_alloc_align s1 0 0xFFFFFFFFFFFFFFF0 16 = Inl (Memory_Fault st)
     \<and> Arena.previous_offset (st 0) = 16 \<and> Arena.current_offset (st 0) = 0"
proof -
  have "\<exists>s1. arena_alloc (arena_init example_machine 0 4096 64) 0 10 = Inr (Some 4096, s1)
      \<and> arenas s1 0 = \<lparr>buffer = 4096, buffer_length = 64, previous_offset = 0, current_offset = 10\<rparr>"
    by (simp add: eval_defs)
  then obtain s1 where c1: "arena_alloc (arena_init example_machine 0 4096 64) 0 10 = Inr (Some 4096, s1)"
    and a1: "arenas s1 0 = \<lparr>buffer = 4096, buffer_length = 64, previous_offset = 0, current_offset = 10\<rparr>"
    by (elim exE conjE)
  have o1: "Arena.previous_offset (arenas s1 0) = 0" "Arena.current_offset (arenas s1 0) = 10"
    by (simp_all add: a1)
  have ao: "aligned_offset (arenas s1 0) 16 = Inr 16"
    by (simp add: a1 aligned_offset_def align_def is_power_of_two_def Let_def)
  have ex: "unat (buffer_length (arenas s1 0)) < unat (16::size_t) + unat (0xFFFFFFFFFFFFFFF0::size_t)"
    by (simp add: a1)
  have "\<exists>st. arena_alloc_align s1 0 0xFFFFFFFFFFFFFFF0 16 = Inl (Memory_Fault st)
      \<and> st 0 = \<lparr>buffer = 4096, buffer_length = 64, previous_offset = 16, current_offset = 0\<rparr>"
    by (simp add: arena_alloc_align_unfold ao [unfolded a1] a1)
  then obtain st where c2: "arena_alloc_align s1 0 0xFFFFFFFFFFFFFFF0 16 = Inl (Memory_Fault st)"
    and a2: "st 0 = \<lparr>buffer = 4096, buffer_length = 64, previous_offset = 16, current_offset = 0\<rparr>"
    by (elim exE conjE)
  have n2: "arena_alloc_align s1 0 0xFFFFFFFFFFFFFFF0 16 \<noteq> Inr (None, s1)"
    by (simp only: c2) simp
  have o2: "Arena.previous_offset (st 0) = 16" "Arena.current_offset (st 0) = 0"
    by (simp_all add: a2)
  show ?thesis
    apply (rule exI [of _ s1], rule exI [of _ st])
    apply (intro conjI)
            apply (rule c1)
           apply (rule o1(1))
          apply (rule o1(2))
         apply (rule ao)
        apply (rule ex)
       apply (rule n2)
      apply (rule c2)
     apply (rule o2(1))
    apply (rule o2(2))
    done
qed





end
